theory Spec2Isabelle
  imports Complex_Main "HOL-Library.Word"
begin

section \<open>Jitter frame synthesis: a shallow embedding of the image pipeline\<close>

text \<open>
  The development follows \<^verbatim>\<open>src/utils/imageProcessing.ts\<close> (output dimensions, noise map,
  line mask, backward-mapped frames) and the application component (playback loop, export).

  Conventions of the embedding.
  \<^item> A JavaScript \<^verbatim>\<open>number\<close> used as a measurement (threshold, jitter amount, scale, a
    timestamp, a noise value) is a \<^typ>\<open>real\<close>: arithmetic is exact, the rounding of IEEE
    doubles and of \<^verbatim>\<open>Float32Array\<close> storage is not modelled.
  \<^item> Pixel dimensions and array indices are \<^typ>\<open>nat\<close>; an element of a
    \<^verbatim>\<open>Uint8ClampedArray\<close> is an \<^typ>\<open>8 word\<close>.
  \<^item> \<^verbatim>\<open>Math.random()\<close> reads a stream \<open>rng :: nat \<Rightarrow> real\<close> at a position that is
    passed along and advanced by one with every call.
  \<^item> Arrays are lists, an assignment \<^verbatim>\<open>a[i] = v\<close> is \<open>a[i := v]\<close>, the \<^verbatim>\<open>for\<close> loops
    are folds over \<open>[0..<n]\<close> in the order of the source.
\<close>

subsection \<open>Data model\<close>

datatype DetectionMode = Brightness | Edge

record ProcessingSettings =
  threshold :: real
  jitterAmount :: real
  jitterSpeed :: real
  frameCount :: int
  lineColor :: string
  bgColor :: string
  scale :: real
  useOriginalColors :: bool
  detectionMode :: DetectionMode

datatype AppStatus = IDLE | PROCESSING | EXPORTING | ERROR

record ImageData =
  width :: nat
  height :: nat
  data :: "8 word list"

datatype DOMException = IndexSizeError

subsection \<open>Output dimensions: \<^verbatim>\<open>setupCanvas\<close>\<close>



subsection \<open>Coherent noise: \<^verbatim>\<open>createNoiseMap\<close>\<close>

definition random :: "(nat \<Rightarrow> real) \<Rightarrow> nat \<Rightarrow> real \<times> nat" where
  "random rng p = (rng p, Suc p)"

definition gridSize :: nat where
  "gridSize = 20"

text \<open>The four lattice cells read for the output pixel \<open>(x, y)\<close>, in the order
  \<^verbatim>\<open>c00\<close>, \<^verbatim>\<open>c10\<close>, \<^verbatim>\<open>c01\<close>, \<^verbatim>\<open>c11\<close>.\<close>

definition cornerIdx :: "nat \<Rightarrow> nat \<Rightarrow> nat \<Rightarrow> nat \<times> nat \<times> nat \<times> nat" where
  "cornerIdx cols x y =
     (let gx = real x / real gridSize;
          gy = real y / real gridSize;
          gxi = nat \<lfloor>gx\<rfloor>;
          gyi = nat \<lfloor>gy\<rfloor>
      in (gyi * cols + gxi, gyi * cols + (gxi + 1),
          (gyi + 1) * cols + gxi, (gyi + 1) * cols + (gxi + 1)))"

definition noiseAt :: "real list \<Rightarrow> nat \<Rightarrow> nat \<Rightarrow> nat \<Rightarrow> real" where
  "noiseAt grid cols x y =
     (let gx = real x / real gridSize;
          gy = real y / real gridSize;
          gxi = nat \<lfloor>gx\<rfloor>;
          gyi = nat \<lfloor>gy\<rfloor>;
          tx = gx - real gxi;
          ty = gy - real gyi;
          (i00, i10, i01, i11) = cornerIdx cols x y;
          c00 = grid ! i00;
          c10 = grid ! i10;
          c01 = grid ! i01;
          c11 = grid ! i11;
          top = c00 + (c10 - c00) * tx;
          bottom = c01 + (c11 - c01) * tx;
          val = top + (bottom - top) * ty
      in val)"

definition noiseCols :: "nat \<Rightarrow> nat" where
  "noiseCols w = nat \<lceil>real w / real gridSize\<rceil> + 1"

definition noiseRows :: "nat \<Rightarrow> nat" where
  "noiseRows h = nat \<lceil>real h / real gridSize\<rceil> + 1"

definition gridStep :: "(nat \<Rightarrow> real) \<Rightarrow> nat \<Rightarrow> real list \<times> nat \<Rightarrow> real list \<times> nat" where
  "gridStep rng i = (\<lambda>(grid, p).
     (let (r, p1) = random rng p in (grid[i := (r - 0.5) * 2], p1)))"

definition randomGrid :: "(nat \<Rightarrow> real) \<Rightarrow> nat \<Rightarrow> nat \<Rightarrow> nat \<Rightarrow> real list \<times> nat" where
  "randomGrid rng p w h =
     (let cols = noiseCols w;
          rows = noiseRows h;
          grid = replicate (cols * rows) 0
      in fold (gridStep rng) [0..<length grid] (grid, p))"

definition createNoiseMap :: "(nat \<Rightarrow> real) \<Rightarrow> nat \<Rightarrow> nat \<Rightarrow> nat \<Rightarrow> real list \<times> nat" where
  "createNoiseMap rng p w h =
     (let cols = noiseCols w;
          (grid, p1) = randomGrid rng p w h;
          nmap = fold (\<lambda>y. fold (\<lambda>x m. m[y * w + x := noiseAt grid cols x y]) [0..<w])
                   [0..<h] (replicate (w * h) 0)
      in (nmap, p1))"

subsection \<open>Line mask\<close>

definition getIdx :: "nat \<Rightarrow> nat \<Rightarrow> nat \<Rightarrow> nat" where
  "getIdx w x y = (y * w + x) * 4"

definition isLine :: "8 word list \<Rightarrow> nat \<Rightarrow> nat \<Rightarrow> ProcessingSettings \<Rightarrow> nat \<Rightarrow> nat \<Rightarrow> bool" where
  "isLine srcPixels w h settings x y =
     (let idx = getIdx w x y in
      if detectionMode settings = Edge then
        (if int x < int w - 1 \<and> int y < int h - 1 then
           (let r = uint (srcPixels ! idx);
                g = uint (srcPixels ! (idx + 1));
                b = uint (srcPixels ! (idx + 2));
                rx = uint (srcPixels ! (idx + 4));
                gx = uint (srcPixels ! (idx + 5));
                bx = uint (srcPixels ! (idx + 6));
                ry = uint (srcPixels ! (idx + w * 4));
                gy = uint (srcPixels ! (idx + w * 4 + 1));
                by = uint (srcPixels ! (idx + w * 4 + 2));
                diffX = \<bar>r - rx\<bar> + \<bar>g - gx\<bar> + \<bar>b - bx\<bar>;
                diffY = \<bar>r - ry\<bar> + \<bar>g - gy\<bar> + \<bar>b - by\<bar>;
                totalDiff = diffX + diffY;
                cutoff = max 0 (500 - threshold settings)
            in real_of_int totalDiff > cutoff)
         else False)
      else
        (let r = uint (srcPixels ! idx);
             g = uint (srcPixels ! (idx + 1));
             b = uint (srcPixels ! (idx + 2));
             luma = 0.299 * real_of_int r + 0.587 * real_of_int g + 0.114 * real_of_int b
         in luma < threshold settings))"

definition computeLineMask :: "8 word list \<Rightarrow> nat \<Rightarrow> nat \<Rightarrow> ProcessingSettings \<Rightarrow> 8 word list" where
  "computeLineMask srcPixels w h settings =
     fold (\<lambda>y. fold (\<lambda>x lineMask.
                 if isLine srcPixels w h settings x y then lineMask[y * w + x := 1]
                 else lineMask) [0..<w])
       [0..<h] (replicate (w * h) 0)"

subsection \<open>Colours: \<^verbatim>\<open>hexToRgb\<close>\<close>

text \<open>
  \<^verbatim>\<open>parseInt(s, 16)\<close> of the host, for ASCII text: leading white space, a sign and a
  \<^verbatim>\<open>0x\<close> prefix are skipped, then the longest run of hexadecimal digits is read; with no
  digit the result is \<^verbatim>\<open>NaN\<close>, here \<open>None\<close>. A number stored into a
  \<^verbatim>\<open>Uint8ClampedArray\<close> is clamped to \<open>0..255\<close>, and \<^verbatim>\<open>NaN\<close> is stored as 0.
\<close>

definition hexDigit :: "char \<Rightarrow> nat option" where
  "hexDigit c =
     (let n = (of_char c :: nat) in
      if 48 \<le> n \<and> n \<le> 57 then Some (n - 48)
      else if 97 \<le> n \<and> n \<le> 102 then Some (n - 87)
      else if 65 \<le> n \<and> n \<le> 70 then Some (n - 55)
      else None)"

fun hexRun :: "nat \<Rightarrow> string \<Rightarrow> nat" where
  "hexRun acc [] = acc"
| "hexRun acc (c # cs) =
     (case hexDigit c of None \<Rightarrow> acc | Some d \<Rightarrow> hexRun (16 * acc + d) cs)"

definition isWhiteSpace :: "char \<Rightarrow> bool" where
  "isWhiteSpace c = ((of_char c :: nat) \<in> {9, 10, 11, 12, 13, 32})"

definition parseInt16 :: "string \<Rightarrow> int option" where
  "parseInt16 s =
     (let t = dropWhile isWhiteSpace s;
          (neg, u) = (case t of
                        [] \<Rightarrow> (False, t)
                      | c # cs \<Rightarrow> if c = CHR ''-'' then (True, cs)
                                  else if c = CHR ''+'' then (False, cs)
                                  else (False, t));
          v = (case u of
                 a # b # cs \<Rightarrow> if a = CHR ''0'' \<and> (b = CHR ''x'' \<or> b = CHR ''X'') then cs else u
               | _ \<Rightarrow> u)
      in case v of
           [] \<Rightarrow> None
         | c # _ \<Rightarrow> (case hexDigit c of
                       None \<Rightarrow> None
                     | Some _ \<Rightarrow> Some ((if neg then - 1 else 1) * int (hexRun 0 v))))"

definition slice :: "nat \<Rightarrow> nat \<Rightarrow> string \<Rightarrow> string" where
  "slice a b s = take (b - a) (drop a s)"

definition hexToRgb :: "string \<Rightarrow> int option \<times> int option \<times> int option" where
  "hexToRgb hex =
     (let r = parseInt16 (slice 1 3 hex);
          g = parseInt16 (slice 3 5 hex);
          b = parseInt16 (slice 5 7 hex)
      in (r, g, b))"

definition toUint8Clamped :: "int option \<Rightarrow> 8 word" where
  "toUint8Clamped v =
     (case v of
        None \<Rightarrow> 0
      | Some n \<Rightarrow> if n < 0 then 0 else if n > 255 then 255 else word_of_int n)"

subsection \<open>Backward-mapped frames: \<^verbatim>\<open>generateJitterFrames\<close>\<close>

definition Math_round :: "real \<Rightarrow> int" where
  "Math_round v = \<lfloor>v + 1 / 2\<rfloor>"

definition putPixel :: "8 word list \<Rightarrow> nat \<Rightarrow> 8 word \<Rightarrow> 8 word \<Rightarrow> 8 word \<Rightarrow> 8 word list" where
  "putPixel dstPixels dstIdx r g b =
     dstPixels[dstIdx := r, dstIdx + 1 := g, dstIdx + 2 := b, dstIdx + 3 := 255]"

text \<open>The body of the loop over destination pixels. It draws the two micro-jitter
  values, looks the source pixel up and writes the four bytes of the destination pixel.\<close>

definition pixelStep ::
  "(nat \<Rightarrow> real) \<Rightarrow> 8 word list \<Rightarrow> 8 word list \<Rightarrow> nat \<Rightarrow> nat \<Rightarrow> ProcessingSettings \<Rightarrow>
   int option \<times> int option \<times> int option \<Rightarrow> int option \<times> int option \<times> int option \<Rightarrow>
   real list \<Rightarrow> real list \<Rightarrow> nat \<Rightarrow> nat \<Rightarrow> 8 word list \<times> nat \<Rightarrow> 8 word list \<times> nat" where
  "pixelStep rng srcPixels lineMask w h settings lineRGB bgRGB mapX mapY x y =
     (\<lambda>(dstPixels, p).
       (let dstIdx = getIdx w x y;
            noiseValX = mapX ! (y * w + x);
            noiseValY = mapY ! (y * w + x);
            (r1, p1) = random rng p;
            hfJitterX = (r1 - 0.5) * 0.3;
            (r2, p2) = random rng p1;
            hfJitterY = (r2 - 0.5) * 0.3;
            dx = noiseValX * jitterAmount settings + hfJitterX * jitterAmount settings;
            dy = noiseValY * jitterAmount settings + hfJitterY * jitterAmount settings;
            srcX = Math_round (real x - dx);
            srcY = Math_round (real y - dy);
            (dst1, pixelFound) =
               (if srcX \<ge> 0 \<and> srcX < int w \<and> srcY \<ge> 0 \<and> srcY < int h then
                  (let srcMaskIdx = nat (srcY * int w + srcX) in
                   if lineMask ! srcMaskIdx = 1 then
                     (let srcPixelIdx = nat ((srcY * int w + srcX) * 4) in
                      if useOriginalColors settings then
                        (putPixel dstPixels dstIdx (srcPixels ! srcPixelIdx)
                           (srcPixels ! (srcPixelIdx + 1)) (srcPixels ! (srcPixelIdx + 2)), True)
                      else
                        (case lineRGB of (lr, lg, lb) \<Rightarrow>
                           (putPixel dstPixels dstIdx (toUint8Clamped lr) (toUint8Clamped lg)
                              (toUint8Clamped lb), True)))
                   else (dstPixels, False))
                else (dstPixels, False));
            dst2 =
               (if \<not> pixelFound then
                  (case bgRGB of (br, bg, bb) \<Rightarrow>
                     putPixel dst1 dstIdx (toUint8Clamped br) (toUint8Clamped bg)
                       (toUint8Clamped bb))
                else dst1)
        in (dst2, p2)))"

text \<open>One iteration of the loop over frames: a fresh \<^verbatim>\<open>ImageData\<close>, two noise maps,
  then every destination pixel, row by row.\<close>

definition renderFrame ::
  "(nat \<Rightarrow> real) \<Rightarrow> nat \<Rightarrow> 8 word list \<Rightarrow> 8 word list \<Rightarrow> nat \<Rightarrow> nat \<Rightarrow> ProcessingSettings \<Rightarrow>
   int option \<times> int option \<times> int option \<Rightarrow> int option \<times> int option \<times> int option \<Rightarrow>
   ImageData \<times> nat" where
  "renderFrame rng p srcPixels lineMask w h settings lineRGB bgRGB =
     (let newImageData = \<lparr>width = w, height = h, data = replicate (w * h * 4) 0\<rparr>;
          (mapX, p1) = createNoiseMap rng p w h;
          (mapY, p2) = createNoiseMap rng p1 w h;
          (dstPixels, p3) =
             fold (\<lambda>y. fold (\<lambda>x. pixelStep rng srcPixels lineMask w h settings lineRGB bgRGB
                                    mapX mapY x y) [0..<w])
               [0..<h] (data newImageData, p2)
      in (newImageData\<lparr>data := dstPixels\<rparr>, p3))"

text \<open>
  \<open>srcPixels\<close> stands for the bytes that \<^verbatim>\<open>ctx.getImageData(0, 0, width, height)\<close>
  returns after the image has been drawn; the host raises \<^verbatim>\<open>IndexSizeError\<close> there when
  a dimension is zero. The result carries the frames and the position reached in the
  random stream.
\<close>

definition generateJitterFrames ::
  "(nat \<Rightarrow> real) \<Rightarrow> nat \<Rightarrow> 8 word list \<Rightarrow> nat \<Rightarrow> nat \<Rightarrow> ProcessingSettings \<Rightarrow>
   DOMException + ImageData list \<times> nat" where
  "generateJitterFrames rng p srcPixels w h settings =
     (if w = 0 \<or> h = 0 then Inl IndexSizeError
      else
        (let lineMask = computeLineMask srcPixels w h settings;
             lineRGB = hexToRgb (lineColor settings);
             bgRGB = hexToRgb (bgColor settings)
         in Inr (fold (\<lambda>f (frames, q).
                        (let (newImageData, q1) =
                           renderFrame rng q srcPixels lineMask w h settings lineRGB bgRGB
                         in (frames @ [newImageData], q1)))
                   [0..<nat (frameCount settings)] ([], p))))"

subsection \<open>Playback loop: \<^verbatim>\<open>animate\<close>\<close>

text \<open>
  The effect that owns the loop returns at once when there are no frames or no canvas;
  otherwise it starts with \<^verbatim>\<open>frameIndex = 0\<close> and \<^verbatim>\<open>lastTime = 0\<close>. The state also
  records what the callback does to the outside: the frames handed to
  \<^verbatim>\<open>putImageData\<close>, in order, and the number of \<^verbatim>\<open>requestAnimationFrame\<close> calls.
\<close>

record Playback =
  frameIndex :: nat
  lastTime :: real
  blits :: "ImageData list"
  requested :: nat

definition playback_init :: Playback where
  "playback_init = \<lparr>frameIndex = 0, lastTime = 0, blits = [], requested = 0\<rparr>"

definition startAnimation :: "ImageData list \<Rightarrow> bool \<Rightarrow> Playback option" where
  "startAnimation generatedFrames hasCanvas =
     (if length generatedFrames = 0 \<or> \<not> hasCanvas then None
      else Some (playback_init\<lparr>requested := 1\<rparr>))"

definition animate :: "bool \<Rightarrow> ImageData list \<Rightarrow> real \<Rightarrow> real \<Rightarrow> Playback \<Rightarrow> Playback" where
  "animate hasCtx generatedFrames speed time st =
     (if \<not> hasCtx then st
      else
        (let st1 =
           (if time - lastTime st > speed
            then st\<lparr>blits := blits st @ [generatedFrames ! frameIndex st],
                    frameIndex := (frameIndex st + 1) mod length generatedFrames,
                    lastTime := time\<rparr>
            else st)
         in st1\<lparr>requested := requested st1 + 1\<rparr>))"

subsection \<open>Export: \<^verbatim>\<open>handleExport\<close>\<close>

text \<open>
  The component state that the handler reads and writes, together with the effects it has:
  the messages passed to \<^verbatim>\<open>alert\<close> and the job handed to the encoder
  (\<^verbatim>\<open>new GIF\<close>, \<^verbatim>\<open>addFrame\<close> for every frame, \<^verbatim>\<open>render\<close>).
\<close>

record GIFOptions =
  workers :: nat
  quality :: nat
  gifWidth :: nat
  gifHeight :: nat
  workerScript :: string
  background :: string

record GIFJob =
  options :: GIFOptions
  addedFrames :: "(ImageData \<times> real) list"
  rendering :: bool

record App =
  status :: AppStatus
  generatedFrames :: "ImageData list"
  downloadUrl :: "string option"
  workerBlobUrl :: "string option"
  canvasPresent :: bool
  gifLibrary :: bool
  alerts :: "string list"
  encoder :: "GIFJob option"

definition workerNotLoaded :: string where
  "workerNotLoaded = ''Worker script not loaded yet. Please wait a moment and try again.''"

definition falsy :: "string option \<Rightarrow> bool" where
  "falsy v = (case v of None \<Rightarrow> True | Some s \<Rightarrow> s = [])"

definition handleExport :: "ProcessingSettings \<Rightarrow> string \<Rightarrow> App \<Rightarrow> App" where
  "handleExport settings gifLibError st =
     (if length (generatedFrames st) = 0 \<or> \<not> canvasPresent st then st
      else
        (let st1 = st\<lparr>status := EXPORTING, downloadUrl := None\<rparr> in
         if \<not> gifLibrary st1 then
           st1\<lparr>alerts := alerts st1 @ [gifLibError], status := IDLE\<rparr>
         else if falsy (workerBlobUrl st1) then
           st1\<lparr>alerts := alerts st1 @ [workerNotLoaded], status := IDLE\<rparr>
         else
           (let gif = \<lparr>options = \<lparr>workers = 2, quality = 10,
                                    gifWidth = width (generatedFrames st1 ! 0),
                                    gifHeight = height (generatedFrames st1 ! 0),
                                    workerScript = the (workerBlobUrl st1),
                                    background = bgColor settings\<rparr>,
                        addedFrames = map (\<lambda>frame. (frame, jitterSpeed settings))
                                          (generatedFrames st1),
                        rendering = True\<rparr>
            in st1\<lparr>encoder := Some gif\<rparr>)))"

text \<open>The callback registered for the encoder's \<^verbatim>\<open>finished\<close> event.\<close>

definition onFinished :: "string \<Rightarrow> App \<Rightarrow> App" where
  "onFinished url st = st\<lparr>downloadUrl := Some url, status := IDLE\<rparr>"

subsection \<open>Notions used to state the properties\<close>

text \<open>
  The definitions of this subsection do not come from the source: they say, in the words
  of the specification, what the loops are expected to compute. A colour channel of the
  pixel \<open>(x, y)\<close>, the summed absolute difference of the three colour channels of two
  pixels, and the luma of a pixel:
\<close>

definition channel :: "8 word list \<Rightarrow> nat \<Rightarrow> nat \<Rightarrow> nat \<Rightarrow> nat \<Rightarrow> int" where
  "channel srcPixels w x y c = uint (srcPixels ! (getIdx w x y + c))"

definition rgbDiff :: "8 word list \<Rightarrow> nat \<Rightarrow> nat \<Rightarrow> nat \<Rightarrow> nat \<Rightarrow> nat \<Rightarrow> int" where
  "rgbDiff srcPixels w x y x' y' =
     \<bar>channel srcPixels w x y 0 - channel srcPixels w x' y' 0\<bar>
     + \<bar>channel srcPixels w x y 1 - channel srcPixels w x' y' 1\<bar>
     + \<bar>channel srcPixels w x y 2 - channel srcPixels w x' y' 2\<bar>"

definition luma :: "8 word list \<Rightarrow> nat \<Rightarrow> nat \<Rightarrow> nat \<Rightarrow> real" where
  "luma srcPixels w x y =
     0.299 * real_of_int (channel srcPixels w x y 0)
     + 0.587 * real_of_int (channel srcPixels w x y 1)
     + 0.114 * real_of_int (channel srcPixels w x y 2)"

text \<open>The number of random draws that fill one lattice, and that one frame consumes
  (two lattices, then two values for every pixel).\<close>

definition latticeSize :: "nat \<Rightarrow> nat \<Rightarrow> nat" where
  "latticeSize w h = noiseCols w * noiseRows h"

definition drawsPerFrame :: "nat \<Rightarrow> nat \<Rightarrow> nat" where
  "drawsPerFrame w h = 2 * latticeSize w h + 2 * (w * h)"

text \<open>A colour given as \<^verbatim>\<open>#rrggbb\<close>, as the four bytes of an opaque pixel.\<close>

definition opaque :: "string \<Rightarrow> 8 word list" where
  "opaque hex =
     (case hexToRgb hex of
        (r, g, b) \<Rightarrow> [toUint8Clamped r, toUint8Clamped g, toUint8Clamped b, 255])"

text \<open>
  The destination pixel \<open>(x, y)\<close> as the specification describes it, from the two coherent
  noise values \<open>nx\<close>, \<open>ny\<close> and the two micro-jitter values \<open>hx\<close>, \<open>hy\<close>: the source
  coordinate is the rounded displaced position; inside the image and on the mask the pixel
  takes the source colour or the line colour, otherwise the background colour.
\<close>

definition specPixel ::
  "8 word list \<Rightarrow> 8 word list \<Rightarrow> nat \<Rightarrow> nat \<Rightarrow> ProcessingSettings \<Rightarrow>
   real \<Rightarrow> real \<Rightarrow> real \<Rightarrow> real \<Rightarrow> nat \<Rightarrow> nat \<Rightarrow> 8 word list" where
  "specPixel srcPixels lineMask w h settings nx ny hx hy x y =
     (let dx = nx * jitterAmount settings + hx * jitterAmount settings;
          dy = ny * jitterAmount settings + hy * jitterAmount settings;
          srcX = round (real x - dx);
          srcY = round (real y - dy)
      in if 0 \<le> srcX \<and> srcX < int w \<and> 0 \<le> srcY \<and> srcY < int h
            \<and> lineMask ! (nat srcY * w + nat srcX) = 1
         then (if useOriginalColors settings
               then [srcPixels ! (4 * (nat srcY * w + nat srcX)),
                     srcPixels ! (4 * (nat srcY * w + nat srcX) + 1),
                     srcPixels ! (4 * (nat srcY * w + nat srcX) + 2), 255]
               else opaque (lineColor settings))
         else opaque (bgColor settings))"

text \<open>The same pixel for a frame whose random draws start at position \<open>p\<close> of the stream.\<close>

definition framePixel ::
  "(nat \<Rightarrow> real) \<Rightarrow> nat \<Rightarrow> 8 word list \<Rightarrow> 8 word list \<Rightarrow> nat \<Rightarrow> nat \<Rightarrow>
   ProcessingSettings \<Rightarrow> nat \<Rightarrow> nat \<Rightarrow> 8 word list" where
  "framePixel rng p srcPixels lineMask w h settings x y =
     (let i = y * w + x;
          nx = fst (createNoiseMap rng p w h) ! i;
          ny = fst (createNoiseMap rng (p + latticeSize w h) w h) ! i;
          hx = (rng (p + 2 * latticeSize w h + 2 * i) - 0.5) * 0.3;
          hy = (rng (p + 2 * latticeSize w h + 2 * i + 1) - 0.5) * 0.3
      in specPixel srcPixels lineMask w h settings nx ny hx hy x y)"

text \<open>Compositing without displacement: pixel \<open>i\<close> of the output is pixel \<open>i\<close> of the
  source where the mask is set, and the background elsewhere.\<close>

definition compositePixel ::
  "8 word list \<Rightarrow> 8 word list \<Rightarrow> ProcessingSettings \<Rightarrow> nat \<Rightarrow> 8 word list" where
  "compositePixel srcPixels lineMask settings i =
     (if lineMask ! i = 1
      then (if useOriginalColors settings
            then [srcPixels ! (4 * i), srcPixels ! (4 * i + 1), srcPixels ! (4 * i + 2), 255]
            else opaque (lineColor settings))
      else opaque (bgColor settings))"

definition directComposite ::
  "8 word list \<Rightarrow> 8 word list \<Rightarrow> nat \<Rightarrow> nat \<Rightarrow> ProcessingSettings \<Rightarrow> ImageData" where
  "directComposite srcPixels lineMask w h settings =
     \<lparr>width = w, height = h,
      data = concat (map (compositePixel srcPixels lineMask settings) [0..<w * h])\<rparr>"

subsection \<open>Sample data\<close>

text \<open>The default settings of the application (\<^verbatim>\<open>DEFAULT_SETTINGS\<close>), a one-pixel
  frame and an idle component state; they serve as concrete inputs below.\<close>

definition DEFAULT_SETTINGS :: ProcessingSettings where
  "DEFAULT_SETTINGS =
     \<lparr>threshold = 350, jitterAmount = 3, jitterSpeed = 120, frameCount = 5,
      lineColor = ''#000000'', bgColor = ''#ffffff'', scale = 1,
      useOriginalColors = True, detectionMode = Edge\<rparr>"

definition px1 :: ImageData where
  "px1 = \<lparr>width = 1, height = 1, data = [0, 0, 0, 255]\<rparr>"

text \<open>Settings for a still image in brightness mode, and a two by two image whose
  top left pixel is black on white.\<close>

definition stillSettings :: ProcessingSettings where
  "stillSettings =
     DEFAULT_SETTINGS\<lparr>detectionMode := Brightness, threshold := 128, jitterAmount := 0,
                       frameCount := 2\<rparr>"

definition edgeSample :: "8 word list" where
  "edgeSample = [0, 0, 0, 255,  255, 255, 255, 255,  255, 255, 255, 255,  255, 255, 255, 255]"

definition idleApp :: App where
  "idleApp =
     \<lparr>status = IDLE, generatedFrames = [], downloadUrl = None, workerBlobUrl = None,
      canvasPresent = True, gifLibrary = False, alerts = [], encoder = None\<rparr>"

section \<open>Properties\<close>

subsection \<open>Loops over pixels\<close>

text \<open>
  A loop over rows and columns visits the pixels in the order of their index
  \<open>i = y * w + x\<close>; a loop that advances the random stream by a fixed amount per iteration
  reads it at known positions; a loop whose iteration \<open>i\<close> writes only the block \<open>i\<close> of
  \<open>k\<close> cells leaves in every block what its own iteration wrote.
\<close>

lemma fold_row_shift:
  "fold (\<lambda>x. body x y) [0..<w] s = fold (\<lambda>i. body (i mod w) (i div w)) [y * w..<y * w + w] s"
proof -
  have "[y * w..<y * w + w] = map (\<lambda>x. y * w + x) [0..<w]"
    by (simp add: map_add_upt add.commute)
  then have "fold (\<lambda>i. body (i mod w) (i div w)) [y * w..<y * w + w] s
      = fold ((\<lambda>i. body (i mod w) (i div w)) \<circ> (\<lambda>x. y * w + x)) [0..<w] s"
    by (simp add: fold_map)
  also have "\<dots> = fold (\<lambda>x. body x y) [0..<w] s"
    by (rule fold_cong) auto
  finally show ?thesis by simp
qed

lemma fold_rows:
  "fold (\<lambda>y. fold (\<lambda>x. body x y) [0..<w]) [0..<h] s
     = fold (\<lambda>i. body (i mod w) (i div w)) [0..<h * w] s"
proof (induction h)
  case 0
  then show ?case by simp
next
  case (Suc h)
  let ?flat = "\<lambda>i. body (i mod w) (i div w)"
  have "[0..<h * w + w] = [0..<h * w] @ [h * w..<h * w + w]"
    by (rule upt_add_eq_append) simp
  moreover have "Suc h * w = h * w + w"
    by simp
  ultimately have split: "[0..<Suc h * w] = [0..<h * w] @ [h * w..<h * w + w]"
    by (simp only:)
  have "fold (\<lambda>y. fold (\<lambda>x. body x y) [0..<w]) [0..<Suc h] s
      = fold (\<lambda>x. body x h) [0..<w] (fold (\<lambda>y. fold (\<lambda>x. body x y) [0..<w]) [0..<h] s)"
    by simp
  also have "\<dots> = fold (\<lambda>x. body x h) [0..<w] (fold ?flat [0..<h * w] s)"
    by (simp only: Suc)
  also have "\<dots> = fold ?flat [h * w..<h * w + w] (fold ?flat [0..<h * w] s)"
    by (rule fold_row_shift)
  also have "\<dots> = fold ?flat ([0..<h * w] @ [h * w..<h * w + w]) s"
    by simp
  finally show ?case
    by (simp only: split)
qed

lemma fold_counter:
  assumes "\<And>i d p. step i (d, p) = (upd i p d, p + c)"
  shows "fold step [0..<n] (d, p0) = (fold (\<lambda>i. upd i (p0 + c * i)) [0..<n] d, p0 + c * n)"
  by (induction n) (simp_all add: assms)

lemma fold_blocks_length:
  assumes "\<And>i d. length (upd i d) = length d"
  shows "length (fold upd [0..<n] d) = length d"
  by (induction n) (simp_all add: assms)

lemma fold_blocks_nth:
  assumes len: "\<And>i d. length (upd i d) = length d"
    and other: "\<And>i d m. m div k \<noteq> i \<Longrightarrow> upd i d ! m = d ! m"
    and own: "\<And>i d m. m div k = i \<Longrightarrow> m < length d \<Longrightarrow> upd i d ! m = val i (m mod k) (d ! m)"
    and m: "m < length d"
  shows "fold upd [0..<n] d ! m
           = (if m div k < n then val (m div k) (m mod k) (d ! m) else d ! m)"
proof (induction n)
  case 0
  then show ?case by simp
next
  case (Suc n)
  let ?d = "fold upd [0..<n] d"
  have l: "m < length ?d"
    using m fold_blocks_length [of upd n d] len by simp
  show ?case
  proof (cases "m div k = n")
    case True
    then have "upd n ?d ! m = val n (m mod k) (?d ! m)"
      using own l by blast
    with True Suc show ?thesis by simp
  next
    case False
    then have "upd n ?d ! m = ?d ! m"
      using other by blast
    with False Suc show ?thesis by (auto simp: less_Suc_eq)
  qed
qed

lemma nth_concat_blocks:
  assumes "\<And>i. i < n \<Longrightarrow> length (f i) = k"
  shows "length (concat (map f [0..<n])) = k * n
     \<and> (\<forall>m < k * n. concat (map f [0..<n]) ! m = f (m div k) ! (m mod k))"
  using assms
proof (induction n)
  case 0
  then show ?case by simp
next
  case (Suc n)
  then have ih: "length (concat (map f [0..<n])) = k * n"
      "\<And>m. m < k * n \<Longrightarrow> concat (map f [0..<n]) ! m = f (m div k) ! (m mod k)"
    by auto
  have fk: "length (f n) = k" using Suc.prems by simp
  have "concat (map f [0..<Suc n]) ! m = f (m div k) ! (m mod k)" if "m < k * Suc n" for m
  proof (cases "m < k * n")
    case True
    then show ?thesis using ih by (simp add: nth_append)
  next
    case False
    then have ge: "k * n \<le> m" by simp
    from that have kpos: "0 < k" by (cases k) auto
    have lt: "m - k * n < k" using that ge by simp
    have eq: "m = (m - k * n) + n * k" using ge by (simp add: mult.commute)
    have "m div k = n"
      using lt kpos by (subst eq) simp
    moreover have "m mod k = m - k * n"
      using lt by (subst eq) simp
    ultimately show ?thesis using False ih(1) by (simp add: nth_append)
  qed
  then show ?case using ih(1) fk by simp
qed



subsection \<open>Output dimensions\<close>



subsection \<open>Line mask\<close>

lemma computeLineMask_flat:
  "computeLineMask src w h s =
     fold (\<lambda>i m. if isLine src w h s (i mod w) (i div w) then m[i := 1] else m)
       [0..<h * w] (replicate (w * h) 0)"
proof -
  have "computeLineMask src w h s =
     fold (\<lambda>i m. if isLine src w h s (i mod w) (i div w)
                  then m[i div w * w + i mod w := 1] else m)
       [0..<h * w] (replicate (w * h) 0)"
    unfolding computeLineMask_def
    by (rule fold_rows [of "\<lambda>x y m. if isLine src w h s x y then m[y * w + x := 1] else m"])
  then show ?thesis by (simp only: div_mult_mod_eq)
qed

lemma length_computeLineMask: "length (computeLineMask src w h s) = w * h"
  unfolding computeLineMask_flat
  by (subst fold_blocks_length) simp_all

lemma computeLineMask_nth_flat:
  assumes "i < w * h"
  shows "computeLineMask src w h s ! i = (if isLine src w h s (i mod w) (i div w) then 1 else 0)"
proof -
  let ?upd = "\<lambda>i m. if isLine src w h s (i mod w) (i div w) then m[i := (1::8 word)] else m"
  let ?val = "\<lambda>i (j::nat) old. if isLine src w h s (i mod w) (i div w) then (1::8 word) else old"
  have "fold ?upd [0..<h * w] (replicate (w * h) 0) ! i
      = (if i div 1 < h * w then ?val (i div 1) (i mod 1) (replicate (w * h) 0 ! i)
         else replicate (w * h) 0 ! i)"
    by (rule fold_blocks_nth) (use assms in auto)
  then show ?thesis
    using assms by (simp add: computeLineMask_flat mult.commute)
qed

lemma computeLineMask_nth:
  assumes "x < w" "y < h"
  shows "computeLineMask src w h s ! (y * w + x) = (if isLine src w h s x y then 1 else 0)"
proof -
  have "y * w + x < w * h"
  proof -
    have "y * w + x < y * w + w" using assms by simp
    also have "\<dots> = Suc y * w" by simp
    also have "\<dots> \<le> h * w" using assms by (intro mult_le_mono1) simp
    finally show ?thesis by (simp add: mult.commute)
  qed
  moreover have "(y * w + x) mod w = x" "(y * w + x) div w = y"
    using assms by simp_all
  ultimately show ?thesis
    using computeLineMask_nth_flat [of "y * w + x" w h src s] by simp
qed

lemma isLine_brightness:
  assumes "detectionMode s = Brightness"
  shows "isLine src w h s x y = (luma src w x y < threshold s)"
proof -
  have z: "getIdx w x y + 0 = getIdx w x y" by simp
  show ?thesis
    unfolding isLine_def luma_def channel_def Let_def z
    using assms by simp
qed

lemma isLine_edge:
  assumes "detectionMode s = Edge"
  shows "isLine src w h s x y =
           (x + 1 < w \<and> y + 1 < h \<and>
            real_of_int (rgbDiff src w x y (x + 1) y + rgbDiff src w x y x (y + 1))
              > max 0 (500 - threshold s))"
proof -
  have i: "getIdx w x y + 0 = getIdx w x y"
    "getIdx w (x + 1) y + 0 = getIdx w x y + 4"
    "getIdx w (x + 1) y + 1 = getIdx w x y + 5"
    "getIdx w (x + 1) y + 2 = getIdx w x y + 6"
    "getIdx w x (y + 1) + 0 = getIdx w x y + w * 4"
    "getIdx w x (y + 1) + 1 = getIdx w x y + w * 4 + 1"
    "getIdx w x (y + 1) + 2 = getIdx w x y + w * 4 + 2"
    by (simp_all add: getIdx_def algebra_simps)
  have b: "(int x < int w - 1 \<and> int y < int h - 1) = (x + 1 < w \<and> y + 1 < h)"
    by auto
  show ?thesis
    unfolding isLine_def rgbDiff_def channel_def Let_def i b
    using assms by auto
qed

lemma luma_le_255: "luma src w x y \<le> 255"
proof -
  have u: "real_of_int (uint v) \<le> 255" for v :: "8 word"
  proof -
    have "uint v \<le> 255"
      using uint_lt2p [of v] by simp
    then have "real_of_int (uint v) \<le> real_of_int 255"
      by (simp only: of_int_le_iff)
    then show ?thesis
      by (simp only: of_int_numeral)
  qed
  have "real_of_int (channel src w x y c) \<le> 255" for c
    unfolding channel_def by (rule u)
  from this [of 0] this [of 1] this [of 2] show ?thesis
    unfolding luma_def by simp
qed



text \<open>
  C4. In edge mode the mask entry of a pixel is 1 exactly when the pixel has a right and a
  bottom neighbour inside the image and the summed absolute channel differences against
  these two neighbours exceed \<open>max 0 (500 - threshold)\<close>; every entry of the last column and
  of the last row is 0.
\<close>

theorem edge_mask_iff:
  assumes "detectionMode s = Edge" and "x < w" and "y < h"
  shows "computeLineMask src w h s ! (y * w + x) =
           (if x + 1 < w \<and> y + 1 < h \<and>
               real_of_int (rgbDiff src w x y (x + 1) y + rgbDiff src w x y x (y + 1))
                 > max 0 (500 - threshold s)
            then 1 else 0)
       \<and> (x = w - 1 \<or> y = h - 1 \<longrightarrow> computeLineMask src w h s ! (y * w + x) = 0)"
  using assms by (auto simp: computeLineMask_nth isLine_edge)

theorem edge_mask_iff_witness:
  "detectionMode DEFAULT_SETTINGS = Edge \<and> (0::nat) < 2 \<and> (1::nat) < 2
   \<and> computeLineMask edgeSample 2 2 DEFAULT_SETTINGS ! (0 * 2 + 0) = 1
   \<and> computeLineMask edgeSample 2 2 DEFAULT_SETTINGS ! (0 * 2 + 1) = 0
   \<and> computeLineMask edgeSample 2 2 DEFAULT_SETTINGS ! (1 * 2 + 0) = 0"
  using edge_mask_iff [of DEFAULT_SETTINGS 0 2 0 2 edgeSample]
    edge_mask_iff [of DEFAULT_SETTINGS 1 2 0 2 edgeSample]
    edge_mask_iff [of DEFAULT_SETTINGS 0 2 1 2 edgeSample]
  by (simp add: DEFAULT_SETTINGS_def rgbDiff_def channel_def getIdx_def edgeSample_def)

text \<open>
  C5 as stated: in brightness mode every threshold \<open>\<ge> 255\<close> marks every pixel. At the
  threshold 255 a white pixel has luma 255, which is not below the threshold, and stays
  unmarked.
\<close>

theorem brightness_255_counterexample:
  "computeLineMask [255, 255, 255, 255] 1 1
     (DEFAULT_SETTINGS\<lparr>detectionMode := Brightness, threshold := 255\<rparr>) = [0]"
  by (simp add: computeLineMask_def isLine_def getIdx_def Let_def DEFAULT_SETTINGS_def)

text \<open>
  C5, amended. In brightness mode every threshold strictly above 255 marks every pixel of
  the mask.
\<close>

theorem brightness_above_255_marks_all:
  assumes "detectionMode s = Brightness" and "threshold s > 255" and "i < w * h"
  shows "computeLineMask src w h s ! i = 1"
proof -
  have "luma src w (i mod w) (i div w) < threshold s"
    using luma_le_255 [of src w "i mod w" "i div w"] assms(2) by linarith
  then show ?thesis
    using assms by (simp add: computeLineMask_nth_flat isLine_brightness)
qed

theorem brightness_above_255_marks_all_witness:
  "detectionMode (stillSettings\<lparr>threshold := 256\<rparr>) = Brightness
   \<and> threshold (stillSettings\<lparr>threshold := 256\<rparr>) > 255 \<and> (0::nat) < 1 * 1
   \<and> computeLineMask [255, 255, 255, 255] 1 1 (stillSettings\<lparr>threshold := 256\<rparr>) ! 0 = 1"
  using brightness_above_255_marks_all [of "stillSettings\<lparr>threshold := 256\<rparr>" 0 1 1
      "[255, 255, 255, 255]"]
  by (simp add: stillSettings_def DEFAULT_SETTINGS_def)

subsection \<open>Noise map\<close>


lemma ceiling_cells:
  assumes "0 < n"
  shows "nat \<lceil>real n / real gridSize\<rceil> = (n - 1) div gridSize + 1"
proof -
  let ?q = "(n - 1) div gridSize"
  have g: "gridSize = 20" by (simp add: gridSize_def)
  have lo: "?q * 20 \<le> n - 1" by (simp add: g)
  have hi: "n - 1 < (?q + 1) * 20"
    using div_mult_mod_eq [of "n - 1" 20] by (simp add: g)
  have "real (?q * 20) < real n" using lo assms by linarith
  then have a: "real_of_int (int (?q + 1)) - 1 < real n / real gridSize"
    by (simp add: g)
  have "real n \<le> real ((?q + 1) * 20)" using hi assms by linarith
  then have b: "real n / real gridSize \<le> real_of_int (int (?q + 1))"
    by (simp add: g)
  have "\<lceil>real n / real gridSize\<rceil> = int (?q + 1)"
    using a b by (rule ceiling_unique)
  then show ?thesis by simp
qed

lemma noiseCols_pos: "0 < w \<Longrightarrow> noiseCols w = (w - 1) div gridSize + 2"
  by (simp add: noiseCols_def ceiling_cells)

lemma noiseRows_pos: "0 < h \<Longrightarrow> noiseRows h = (h - 1) div gridSize + 2"
  by (simp add: noiseRows_def ceiling_cells)



lemma randomGrid_eq:
  "randomGrid rng p w h =
     (map (\<lambda>i. (rng (p + i) - 0.5) * 2) [0..<latticeSize w h], p + latticeSize w h)"
proof -
  let ?n = "latticeSize w h"
  let ?upd = "\<lambda>i q (g :: real list). g[i := (rng q - 0.5) * 2]"
  let ?g0 = "replicate ?n (0::real)"
  have step: "gridStep rng i (g, q) = (?upd i q g, q + 1)" for i g q
    by (simp add: gridStep_def random_def)
  have "randomGrid rng p w h = fold (gridStep rng) [0..<?n] (?g0, p)"
    by (simp add: randomGrid_def latticeSize_def Let_def)
  also have "\<dots> = (fold (\<lambda>i. ?upd i (p + 1 * i)) [0..<?n] ?g0, p + 1 * ?n)"
    using step by (rule fold_counter)
  finally have r: "randomGrid rng p w h = (fold (\<lambda>i. ?upd i (p + i)) [0..<?n] ?g0, p + ?n)"
    by simp
  have len: "length (fold (\<lambda>i. ?upd i (p + i)) [0..<?n] ?g0) = ?n"
    by (subst fold_blocks_length) simp_all
  have "fold (\<lambda>i. ?upd i (p + i)) [0..<?n] ?g0 ! m = (rng (p + m) - 0.5) * 2" if "m < ?n" for m
  proof -
    have "fold (\<lambda>i. ?upd i (p + i)) [0..<?n] ?g0 ! m
        = (if m div 1 < ?n then (\<lambda>i (j::nat) (old::real). (rng (p + i) - 0.5) * 2) (m div 1) (m mod 1) (?g0 ! m)
           else ?g0 ! m)"
      by (rule fold_blocks_nth) (use that in auto)
    then show ?thesis using that by simp
  qed
  then have "fold (\<lambda>i. ?upd i (p + i)) [0..<?n] ?g0 = map (\<lambda>i. (rng (p + i) - 0.5) * 2) [0..<?n]"
    using len by (intro nth_equalityI) simp_all
  then show ?thesis using r by simp
qed

lemma createNoiseMap_snd: "snd (createNoiseMap rng p w h) = p + latticeSize w h"
  by (simp add: createNoiseMap_def randomGrid_eq Let_def)

lemma createNoiseMap_fst_flat:
  "fst (createNoiseMap rng p w h) =
     fold (\<lambda>i m. m[i := noiseAt (fst (randomGrid rng p w h)) (noiseCols w) (i mod w) (i div w)])
       [0..<h * w] (replicate (w * h) 0)"
proof -
  let ?grid = "fst (randomGrid rng p w h)"
  have "fst (createNoiseMap rng p w h) =
      fold (\<lambda>y. fold (\<lambda>x m. m[y * w + x := noiseAt ?grid (noiseCols w) x y]) [0..<w])
        [0..<h] (replicate (w * h) 0)"
    by (simp add: createNoiseMap_def Let_def split_beta)
  also have "\<dots> = fold (\<lambda>i m. m[i div w * w + i mod w :=
                        noiseAt ?grid (noiseCols w) (i mod w) (i div w)])
                      [0..<h * w] (replicate (w * h) 0)"
    by (rule fold_rows [of "\<lambda>x y m. m[y * w + x := noiseAt ?grid (noiseCols w) x y]"])
  finally show ?thesis by (simp only: div_mult_mod_eq)
qed

lemma length_createNoiseMap: "length (fst (createNoiseMap rng p w h)) = w * h"
  unfolding createNoiseMap_fst_flat
  by (subst fold_blocks_length) simp_all




subsection \<open>Frames\<close>

lemma length_opaque: "length (opaque hex) = 4"
  by (simp add: opaque_def split: prod.splits)

lemma opaque_alpha: "opaque hex ! 3 = 255"
  by (simp add: opaque_def split: prod.splits)

lemma length_specPixel: "length (specPixel src lineMask w h s nx ny hx hy x y) = 4"
  by (simp add: specPixel_def Let_def length_opaque)

lemma specPixel_alpha: "specPixel src lineMask w h s nx ny hx hy x y ! 3 = 255"
  by (simp add: specPixel_def Let_def opaque_alpha)

lemma length_putPixel: "length (putPixel d i r g b) = length d"
  by (simp add: putPixel_def)

lemma putPixel_other: "m div 4 \<noteq> i \<Longrightarrow> putPixel d (i * 4) r g b ! m = d ! m"
  unfolding putPixel_def by (simp add: nth_list_update)

lemma putPixel_at:
  assumes "j < 4" and "i * 4 + j < length d"
  shows "putPixel d (i * 4) r g b ! (i * 4 + j) = [r, g, b, 255] ! j"
proof -
  consider "j = 0" | "j = 1" | "j = 2" | "j = 3"
    using assms(1) by arith
  then show ?thesis
  proof cases
    case 1
    with assms(2) show ?thesis by (simp add: putPixel_def nth_list_update)
  next
    case 2
    with assms(2) show ?thesis by (simp add: putPixel_def nth_list_update)
  next
    case 3
    with assms(2) show ?thesis by (simp add: putPixel_def nth_list_update)
  next
    case 4
    with assms(2) show ?thesis by (simp add: putPixel_def nth_list_update)
  qed
qed

lemma putPixel_own:
  assumes "m div 4 = i" and "m < length d"
  shows "putPixel d (i * 4) r g b ! m = [r, g, b, 255] ! (m mod 4)"
proof -
  have m: "i * 4 + m mod 4 = m"
    using assms(1) by (metis div_mult_mod_eq)
  have "putPixel d (i * 4) r g b ! (i * 4 + m mod 4) = [r, g, b, 255] ! (m mod 4)"
    by (rule putPixel_at) (use assms(2) m in simp_all)
  then show ?thesis by (simp only: m)
qed

lemma nat_cell:
  assumes "0 \<le> a" and "0 \<le> b"
  shows "nat (a * int w + b) = nat a * w + nat b"
    and "nat ((a * int w + b) * 4) = 4 * (nat a * w + nat b)"
proof -
  have "a * int w + b = int (nat a * w + nat b)"
    using assms by simp
  then show "nat (a * int w + b) = nat a * w + nat b"
    by (simp only: nat_int)
  then show "nat ((a * int w + b) * 4) = 4 * (nat a * w + nat b)"
    using assms by (simp add: nat_mult_distrib)
qed

lemma pixelStep_eq:
  "pixelStep rng src lm w h s (hexToRgb (lineColor s)) (hexToRgb (bgColor s)) mapX mapY x y (d, p)
     = (let c = specPixel src lm w h s (mapX ! (y * w + x)) (mapY ! (y * w + x))
                  ((rng p - 0.5) * 0.3) ((rng (Suc p) - 0.5) * 0.3) x y
        in (putPixel d ((y * w + x) * 4) (c ! 0) (c ! 1) (c ! 2), p + 2))"
proof -
  obtain lr lg lb where l: "hexToRgb (lineColor s) = (lr, lg, lb)"
    by (cases "hexToRgb (lineColor s)")
  obtain br bg bb where b: "hexToRgb (bgColor s) = (br, bg, bb)"
    by (cases "hexToRgb (bgColor s)")
  let ?srcX = "Math_round (real x - (mapX ! (y * w + x) * jitterAmount s
                 + (rng p - 0.5) * 0.3 * jitterAmount s))"
  let ?srcY = "Math_round (real y - (mapY ! (y * w + x) * jitterAmount s
                 + (rng (Suc p) - 0.5) * 0.3 * jitterAmount s))"
  have r: "round v = Math_round v" for v
    by (simp add: round_def Math_round_def)
  show ?thesis
  proof (cases "0 \<le> ?srcX \<and> ?srcX < int w \<and> 0 \<le> ?srcY \<and> ?srcY < int h")
    case True
    then have n: "nat (?srcY * int w + ?srcX) = nat ?srcY * w + nat ?srcX"
      "nat ((?srcY * int w + ?srcX) * 4) = 4 * (nat ?srcY * w + nat ?srcX)"
      by (simp_all only: nat_cell)
    show ?thesis
      unfolding pixelStep_def specPixel_def random_def getIdx_def opaque_def Let_def r l b
        prod.case n
      using True by simp
  next
    case False
    then show ?thesis
      unfolding pixelStep_def specPixel_def random_def getIdx_def opaque_def Let_def r l b
        prod.case
      by auto
  qed
qed


lemma framePixel_alpha: "framePixel rng p src lm w h s x y ! 3 = 255"
  by (simp add: framePixel_def Let_def specPixel_alpha)

lemma four_bytes:
  assumes "length c = 4" and "c ! 3 = (255 :: 8 word)" and "j < 4"
  shows "[c ! 0, c ! 1, c ! 2, 255] ! j = c ! j"
proof -
  consider "j = 0" | "j = 1" | "j = 2" | "j = 3"
    using assms(3) by arith
  then show ?thesis
    using assms(2) by cases simp_all
qed

lemma renderFrame_eq:
  fixes rng p src lm w h s
  defines "res \<equiv> renderFrame rng p src lm w h s (hexToRgb (lineColor s)) (hexToRgb (bgColor s))"
  shows "width (fst res) = w" and "height (fst res) = h"
    and "length (data (fst res)) = w * h * 4"
    and "snd res = p + drawsPerFrame w h"
    and "m < w * h * 4 \<Longrightarrow>
           data (fst res) ! m = framePixel rng p src lm w h s (m div 4 mod w) (m div 4 div w) ! (m mod 4)"
proof -
  let ?G = "latticeSize w h"
  let ?mapX = "fst (createNoiseMap rng p w h)"
  let ?mapY = "fst (createNoiseMap rng (p + ?G) w h)"
  let ?d0 = "replicate (w * h * 4) (0 :: 8 word)"
  let ?step = "\<lambda>x y. pixelStep rng src lm w h s (hexToRgb (lineColor s)) (hexToRgb (bgColor s))
                          ?mapX ?mapY x y"
  let ?c = "\<lambda>i q. specPixel src lm w h s (?mapX ! i) (?mapY ! i)
                      ((rng q - 0.5) * 0.3) ((rng (Suc q) - 0.5) * 0.3) (i mod w) (i div w)"
  let ?upd = "\<lambda>i q d. putPixel d (i * 4) (?c i q ! 0) (?c i q ! 1) (?c i q ! 2)"
  let ?p2 = "p + ?G + ?G"
  let ?loop = "fold (\<lambda>i. ?upd i (?p2 + 2 * i)) [0..<h * w] ?d0"
  have step: "?step (i mod w) (i div w) (d, q) = (?upd i q d, q + 2)" for i d q
    by (simp only: pixelStep_eq Let_def div_mult_mod_eq)
  have "fold (\<lambda>y. fold (\<lambda>x. ?step x y) [0..<w]) [0..<h] (?d0, ?p2)
      = fold (\<lambda>i. ?step (i mod w) (i div w)) [0..<h * w] (?d0, ?p2)"
    by (rule fold_rows)
  also have "\<dots> = (?loop, ?p2 + 2 * (h * w))"
    using step by (rule fold_counter)
  finally have loop: "fold (\<lambda>y. fold (\<lambda>x. ?step x y) [0..<w]) [0..<h] (?d0, ?p2)
      = (?loop, ?p2 + 2 * (h * w))" .
  have res: "res = (\<lparr>width = w, height = h, data = ?loop\<rparr>, ?p2 + 2 * (h * w))"
    unfolding res_def renderFrame_def Let_def case_prod_beta createNoiseMap_snd
    by (simp add: loop)
  show "width (fst res) = w" "height (fst res) = h"
    by (simp_all add: res)
  show "length (data (fst res)) = w * h * 4"
    unfolding res by (simp, subst fold_blocks_length) (simp_all add: length_putPixel)
  show "snd res = p + drawsPerFrame w h"
    by (simp add: res drawsPerFrame_def mult.commute)
  show "data (fst res) ! m = framePixel rng p src lm w h s (m div 4 mod w) (m div 4 div w) ! (m mod 4)"
    if m: "m < w * h * 4"
  proof -
    have "?loop ! m
        = (if m div 4 < h * w
           then (\<lambda>i j (old :: 8 word). ?c i (?p2 + 2 * i) ! j) (m div 4) (m mod 4) (?d0 ! m)
           else ?d0 ! m)"
    proof (rule fold_blocks_nth)
      show "length (?upd i (?p2 + 2 * i) d) = length d" for i d
        by (rule length_putPixel)
      show "m' div 4 \<noteq> i \<Longrightarrow> ?upd i (?p2 + 2 * i) d ! m' = d ! m'" for i d m'
        by (rule putPixel_other)
      show "?upd i (?p2 + 2 * i) d ! m' = ?c i (?p2 + 2 * i) ! (m' mod 4)"
        if "m' div 4 = i" "m' < length d" for i d m'
      proof -
        let ?q = "?p2 + 2 * i"
        have "?upd i ?q d ! m' = [?c i ?q ! 0, ?c i ?q ! 1, ?c i ?q ! 2, 255] ! (m' mod 4)"
          using that by (rule putPixel_own)
        also have "\<dots> = ?c i ?q ! (m' mod 4)"
          by (rule four_bytes) (simp_all add: length_specPixel specPixel_alpha)
        finally show ?thesis .
      qed
      show "m < length ?d0" using m by simp
    qed
    moreover have "m div 4 < h * w"
      using m by (simp add: mult.commute less_mult_imp_div_less)
    ultimately have "?loop ! m = ?c (m div 4) (?p2 + 2 * (m div 4)) ! (m mod 4)"
      by simp
    then show ?thesis
      by (simp add: res framePixel_def Let_def add.assoc mult_2)
  qed
qed

lemma frames_loop:
  "fold (\<lambda>f (frames, q).
           (case renderFrame rng q src lm w h s
                   (hexToRgb (lineColor s)) (hexToRgb (bgColor s)) of
              (newImageData, q1) \<Rightarrow> (frames @ [newImageData], q1)))
     [0..<n] ([], p)
   = (map (\<lambda>f. fst (renderFrame rng (p + f * drawsPerFrame w h) src lm w h s
                        (hexToRgb (lineColor s)) (hexToRgb (bgColor s)))) [0..<n],
      p + n * drawsPerFrame w h)"
  by (induction n) (simp_all add: case_prod_beta renderFrame_eq(4) add.assoc)

lemma generateJitterFrames_eq:
  assumes "0 < w" and "0 < h"
  shows "generateJitterFrames rng p src w h s =
           Inr (map (\<lambda>f. fst (renderFrame rng (p + f * drawsPerFrame w h) src
                                 (computeLineMask src w h s) w h s
                                 (hexToRgb (lineColor s)) (hexToRgb (bgColor s))))
                  [0..<nat (frameCount s)],
                p + nat (frameCount s) * drawsPerFrame w h)"
  using assms by (simp add: generateJitterFrames_def Let_def frames_loop)


lemma length_compositePixel: "length (compositePixel src lm s i) = 4"
  by (simp add: compositePixel_def length_opaque)

lemma framePixel_zero:
  assumes "jitterAmount s = 0" and "x < w" and "y < h"
  shows "framePixel rng p src lm w h s x y = compositePixel src lm s (y * w + x)"
  using assms by (simp add: framePixel_def specPixel_def compositePixel_def Let_def)

lemma renderFrame_zero:
  assumes "jitterAmount s = 0" and "0 < w"
  shows "fst (renderFrame rng p src lm w h s (hexToRgb (lineColor s)) (hexToRgb (bgColor s)))
           = directComposite src lm w h s"
proof -
  let ?res = "renderFrame rng p src lm w h s (hexToRgb (lineColor s)) (hexToRgb (bgColor s))"
  let ?cmp = "concat (map (compositePixel src lm s) [0..<w * h])"
  have c: "length ?cmp = 4 * (w * h)"
      "\<forall>m < 4 * (w * h). ?cmp ! m = compositePixel src lm s (m div 4) ! (m mod 4)"
    using nth_concat_blocks [of "w * h" "compositePixel src lm s" 4]
    by (simp_all add: length_compositePixel)
  have "data (fst ?res) ! m = ?cmp ! m" if m: "m < w * h * 4" for m
  proof -
    have i: "m div 4 < w * h"
      using m by (simp add: less_mult_imp_div_less)
    then have y: "m div 4 div w < h"
      by (simp add: less_mult_imp_div_less mult.commute)
    have x: "m div 4 mod w < w"
      using assms(2) by simp
    have "data (fst ?res) ! m = framePixel rng p src lm w h s (m div 4 mod w) (m div 4 div w) ! (m mod 4)"
      using m by (rule renderFrame_eq(5))
    also have "\<dots> = compositePixel src lm s (m div 4 div w * w + m div 4 mod w) ! (m mod 4)"
      using assms(1) x y by (simp only: framePixel_zero)
    also have "\<dots> = ?cmp ! m"
      using c(2) m by (simp add: mult.commute)
    finally show ?thesis .
  qed
  then have "data (fst ?res) = ?cmp"
    using c(1) by (intro nth_equalityI) (simp_all add: renderFrame_eq(3) mult.commute)
  then show ?thesis
    by (simp add: directComposite_def renderFrame_eq(1,2))
qed

text \<open>A one-pixel run: a black pixel, brightness mode at threshold 128, no jitter,
  two frames, the random stream constantly \<open>1 / 2\<close>.\<close>

lemma mask_black_pixel: "computeLineMask [0, 0, 0, 255] 1 1 stillSettings = [1]"
  by (simp add: computeLineMask_def isLine_def getIdx_def Let_def stillSettings_def
      DEFAULT_SETTINGS_def)

lemma sample_frames:
  "generateJitterFrames rng p [0, 0, 0, 255] 1 1 stillSettings = Inr ([px1, px1], p + 20)"
proof -
  have n: "nat (frameCount stillSettings) = 2" "jitterAmount stillSettings = 0"
    "useOriginalColors stillSettings"
    by (simp_all add: stillSettings_def DEFAULT_SETTINGS_def)
  have d: "drawsPerFrame 1 1 = 10"
    by (simp add: drawsPerFrame_def latticeSize_def noiseCols_pos noiseRows_pos)
  have c: "directComposite [0, 0, 0, 255]
             (computeLineMask [0, 0, 0, 255] 1 1 stillSettings) 1 1 stillSettings = px1"
    unfolding mask_black_pixel
    by (simp add: directComposite_def compositePixel_def n px1_def)
  have u: "[0..<2] = [0, Suc 0]"
    by (simp add: upt_rec)
  have "generateJitterFrames rng p [0, 0, 0, 255] 1 1 stillSettings =
          Inr (map (\<lambda>f. px1) [0..<2], p + 2 * 10)"
    unfolding c [symmetric] d [symmetric] n(1) [symmetric]
    by (subst generateJitterFrames_eq) (simp_all only: renderFrame_zero [OF n(2)] zero_less_one)
  then show ?thesis
    by (simp add: u)
qed

text \<open>
  C7. For output dimensions of at least one pixel each and a frame count that is not
  negative, synthesis returns a sequence of exactly \<open>frameCount\<close> frames, each of the width
  and height passed in and with four bytes per pixel.
\<close>

theorem frame_count_and_dimensions:
  assumes "0 < w" and "0 < h" and "0 \<le> frameCount s"
  shows "\<exists>frames q. generateJitterFrames rng p src w h s = Inr (frames, q)
           \<and> int (length frames) = frameCount s
           \<and> (\<forall>fr \<in> set frames. width fr = w \<and> height fr = h \<and> length (data fr) = w * h * 4)"
  using assms by (auto simp: generateJitterFrames_eq renderFrame_eq)

theorem frame_count_and_dimensions_witness:
  "(0::nat) < 1 \<and> 0 \<le> frameCount stillSettings
   \<and> generateJitterFrames (\<lambda>_. 1 / 2) 0 [0, 0, 0, 255] 1 1 stillSettings = Inr ([px1, px1], 20)
   \<and> int (length [px1, px1]) = frameCount stillSettings
   \<and> width px1 = 1 \<and> height px1 = 1 \<and> length (data px1) = 1 * 1 * 4"
  using frame_count_and_dimensions [of 1 1 stillSettings "\<lambda>_. 1 / 2" 0 "[0, 0, 0, 255]"]
    sample_frames [of "\<lambda>_. 1 / 2" 0]
  by (simp add: stillSettings_def DEFAULT_SETTINGS_def)





subsection \<open>Playback\<close>

text \<open>
  C6 as stated: from the initial state the first tick draws whatever its timestamp and
  whatever the configured speed. It does not: with a speed of 120 ms, a first tick that
  arrives with the timestamp 100 leaves the display untouched and the frame index at 0.
\<close>

theorem first_tick_counterexample:
  "blits (animate True [px1, px1] 120 100 (playback_init\<lparr>requested := 1\<rparr>)) = []
   \<and> frameIndex (animate True [px1, px1] 120 100 (playback_init\<lparr>requested := 1\<rparr>)) = 0"
  by (simp add: animate_def playback_init_def Let_def)

text \<open>
  C6, amended. Started on a non-empty frame sequence with a canvas and a drawing context,
  the first tick draws frame 0, advances the frame index and records its timestamp exactly
  when that timestamp exceeds the configured speed; otherwise it changes nothing. In both
  cases it requests the next tick.
\<close>

theorem first_tick_draws_iff:
  assumes "startAnimation frames hasCanvas = Some st"
  shows "animate True frames speed time st =
           (if time > speed
            then \<lparr>frameIndex = 1 mod length frames, lastTime = time,
                  blits = [frames ! 0], requested = 2\<rparr>
            else \<lparr>frameIndex = 0, lastTime = 0, blits = [], requested = 2\<rparr>)"
  using assms
  by (auto simp: startAnimation_def animate_def playback_init_def Let_def split: if_splits)

theorem first_tick_draws_iff_witness:
  "startAnimation [px1, px1] True = Some (playback_init\<lparr>requested := 1\<rparr>)
   \<and> blits (animate True [px1, px1] 120 130 (playback_init\<lparr>requested := 1\<rparr>)) = [px1]
   \<and> blits (animate True [px1, px1] 120 100 (playback_init\<lparr>requested := 1\<rparr>)) = []"
proof -
  have s: "startAnimation [px1, px1] True = Some (playback_init\<lparr>requested := 1\<rparr>)"
    by (simp add: startAnimation_def)
  show ?thesis
    using s first_tick_draws_iff [OF s, of 120 130] first_tick_draws_iff [OF s, of 120 100]
    by simp
qed

subsection \<open>Export\<close>

text \<open>
  C8. Export on an empty frame sequence returns the component state as it was: no alert,
  no download URL, no encoder job, the status unchanged. With frames and a canvas but
  without the encoder library or its worker script, export raises an alert, clears the
  download URL and puts the status back to idle, and hands nothing to the encoder.
\<close>

theorem export_empty_declines:
  "(generatedFrames st = [] \<longrightarrow> handleExport settings msg st = st)
   \<and> (generatedFrames st \<noteq> [] \<and> canvasPresent st
        \<and> (\<not> gifLibrary st \<or> falsy (workerBlobUrl st)) \<longrightarrow>
        alerts (handleExport settings msg st) =
          alerts st @ [if \<not> gifLibrary st then msg else workerNotLoaded]
        \<and> status (handleExport settings msg st) = IDLE
        \<and> downloadUrl (handleExport settings msg st) = None
        \<and> encoder (handleExport settings msg st) = encoder st)"
  by (simp add: handleExport_def Let_def)

theorem export_empty_declines_witness:
  "handleExport DEFAULT_SETTINGS ''no encoder'' (idleApp\<lparr>status := ERROR\<rparr>)
     = idleApp\<lparr>status := ERROR\<rparr>
   \<and> alerts (handleExport DEFAULT_SETTINGS ''no encoder''
                (idleApp\<lparr>status := ERROR, generatedFrames := [px1]\<rparr>)) = [''no encoder'']
   \<and> status (handleExport DEFAULT_SETTINGS ''no encoder''
                (idleApp\<lparr>status := ERROR, generatedFrames := [px1]\<rparr>)) = IDLE"
  using export_empty_declines [of "idleApp\<lparr>status := ERROR\<rparr>" DEFAULT_SETTINGS "''no encoder''"]
    export_empty_declines [of "idleApp\<lparr>status := ERROR, generatedFrames := [px1]\<rparr>"
      DEFAULT_SETTINGS "''no encoder''"]
  by (simp add: idleApp_def)

end
